theory Spec2Isabelle
  imports Complex_Main "HOL-Library.Word"
begin

section \<open>Latching firmware: one pass of \<open>loop()\<close>\<close>

text \<open>
  The firmware keeps its state in global variables and rewrites them on every pass of
  \<open>loop()\<close>. The globals that decide the device state are the fields of \<open>device\<close>; one
  pass is the function \<open>loop\<close>, from the sensor readings of that pass and the old globals
  to the new globals. The text of \<open>movementStatus\<close>, the GPS fix, the buzzer, the serial
  report and the upload only consume the state and are left out.

  \<open>unsigned long\<close> is 32 bits wide on the ESP32: \<open>millis()\<close> is the uptime in
  milliseconds modulo \<open>2 ^ 32\<close>, and differences of two readings wrap around. The
  readings of a pass carry the uptime as a natural number; \<open>millis\<close> truncates it.
  \<open>float\<close> values are real numbers here, a failed DHT read (NaN) is \<open>None\<close>.
\<close>

type_synonym ulong = "32 word"

definition millis :: "nat \<Rightarrow> ulong" where
  "millis t = of_nat t"

definition DEBOUNCE_MS :: ulong where
  "DEBOUNCE_MS = 200"

record device =
  totalAcc :: real
  noMoveStartTime :: ulong
  notMoving :: bool
  deviceState :: string
  mpuStatus :: string
  dhtStatus :: string
  systemStatus :: string
  sosActive :: bool
  sosDeactivateCount :: int
  lastButtonState :: bool
  lastDebounceTime :: ulong

text \<open>
  The readings of one pass. \<open>mpu\<close> is the magnitude computed from a complete
  accelerometer read, \<open>None\<close> when the bus transaction fails; \<open>button\<close> is
  \<open>digitalRead(SOS_BUTTON)\<close>, \<open>True\<close> for HIGH (released); the three times are the uptime
  at the three calls of \<open>millis()\<close> in the movement and SOS sections.
\<close>

record inputs =
  mpu :: "real option"
  t_noMoveStart :: nat
  t_noMoveDuration :: nat
  dht :: "real option"
  button :: bool
  t_button :: nat

definition init_device :: device where
  "init_device = \<lparr> totalAcc = 0, noMoveStartTime = 0, notMoving = False,
     deviceState = ''STARTUP'', mpuStatus = ''OK'', dhtStatus = ''OK'', systemStatus = ''OK'',
     sosActive = False, sosDeactivateCount = 0, lastButtonState = True, lastDebounceTime = 0 \<rparr>"

definition mpu6050 :: "inputs \<Rightarrow> device \<Rightarrow> device" where
  "mpu6050 i d =
     (case mpu i of
        None \<Rightarrow> d\<lparr>mpuStatus := ''ERROR'', systemStatus := ''SENSOR_FAILURE''\<rparr>
      | Some a \<Rightarrow> d\<lparr>totalAcc := a, mpuStatus := ''OK''\<rparr>)"

definition movement :: "device \<Rightarrow> real" where
  "movement d = \<bar>totalAcc d - 1\<bar>"

definition movement_timer :: "inputs \<Rightarrow> device \<Rightarrow> device" where
  "movement_timer i d =
     (if movement d < 3 / 100
      then (if \<not> notMoving d
            then d\<lparr>noMoveStartTime := millis (t_noMoveStart i), notMoving := True\<rparr>
            else d)
      else d\<lparr>notMoving := False\<rparr>)"

definition noMoveDuration :: "inputs \<Rightarrow> device \<Rightarrow> ulong" where
  "noMoveDuration i d =
     (if notMoving d then (millis (t_noMoveDuration i) - noMoveStartTime d) div 1000 else 0)"

definition movement_logic :: "inputs \<Rightarrow> device \<Rightarrow> device" where
  "movement_logic i d =
     (if \<not> notMoving d then d
      else if 5 \<le> noMoveDuration i d \<and> noMoveDuration i d < 15
           then d\<lparr>deviceState := ''WARNING''\<rparr>
      else if 15 \<le> noMoveDuration i d
           then d\<lparr>deviceState := ''EMERGENCY''\<rparr>
      else d)"

definition temperature_read :: "inputs \<Rightarrow> real" where
  "temperature_read i = (case dht i of None \<Rightarrow> - 999 | Some t \<Rightarrow> t)"

definition dht_logic :: "inputs \<Rightarrow> device \<Rightarrow> device" where
  "dht_logic i d =
     (let d1 = (case dht i of
                  None \<Rightarrow> d\<lparr>dhtStatus := ''ERROR'', systemStatus := ''SENSOR_FAILURE''\<rparr>
                | Some t \<Rightarrow> d\<lparr>dhtStatus := ''OK''\<rparr>)
      in if temperature_read i > 50
         then d1\<lparr>deviceState := ''EMERGENCY (HIGH TEMP)''\<rparr>
         else d1)"

text \<open>
  The SOS section. A rising edge (released after pressed) is accepted when at least
  \<open>DEBOUNCE_MS\<close> have passed since the last accepted edge; \<open>buttonJustPressed\<close> is the
  local flag of that name.
\<close>

definition buttonJustPressed :: "inputs \<Rightarrow> device \<Rightarrow> bool" where
  "buttonJustPressed i d =
     (button i \<and> \<not> lastButtonState d
      \<and> DEBOUNCE_MS \<le> millis (t_button i) - lastDebounceTime d)"

definition debounce :: "inputs \<Rightarrow> device \<Rightarrow> device" where
  "debounce i d =
     (if buttonJustPressed i d
      then d\<lparr>lastDebounceTime := millis (t_button i), lastButtonState := button i\<rparr>
      else d\<lparr>lastButtonState := button i\<rparr>)"

definition sos_press :: "device \<Rightarrow> device" where
  "sos_press d =
     (if \<not> sosActive d
      then d\<lparr>sosActive := True, sosDeactivateCount := 0\<rparr>
      else (let d1 = d\<lparr>sosDeactivateCount := sosDeactivateCount d + 1\<rparr>
            in if 2 \<le> sosDeactivateCount d1
               then d1\<lparr>sosActive := False, sosDeactivateCount := 0\<rparr>
               else d1))"

definition sos_latch :: "inputs \<Rightarrow> device \<Rightarrow> device" where
  "sos_latch i d =
     (if buttonJustPressed i d then sos_press (debounce i d) else debounce i d)"

definition sos_override :: "device \<Rightarrow> device" where
  "sos_override d = (if sosActive d then d\<lparr>deviceState := ''SOS''\<rparr> else d)"

text \<open>
  A pass runs the sections in the order of the source: reset of the two status strings,
  accelerometer read, movement timer and movement state (\<open>motion\<close>), temperature
  (\<open>sensors\<close>), SOS latch, SOS override.
\<close>

definition reset :: "device \<Rightarrow> device" where
  "reset d = d\<lparr>systemStatus := ''OK'', deviceState := ''NORMAL''\<rparr>"

definition motion :: "inputs \<Rightarrow> device \<Rightarrow> device" where
  "motion i d = movement_logic i (movement_timer i (mpu6050 i (reset d)))"

definition sensors :: "inputs \<Rightarrow> device \<Rightarrow> device" where
  "sensors i d = dht_logic i (motion i d)"

definition loop :: "inputs \<Rightarrow> device \<Rightarrow> device" where
  "loop i d = sos_override (sos_latch i (sensors i d))"

text \<open>
  The stillness, in milliseconds, that a pass measures before it divides by 1000: the
  uptime at the second call of \<open>millis()\<close> minus the start of the still period, as
  \<open>unsigned long\<close>.
\<close>

definition stillness_ms :: "inputs \<Rightarrow> device \<Rightarrow> nat" where
  "stillness_ms i d =
     unat (millis (t_noMoveDuration i) - noMoveStartTime (movement_timer i (mpu6050 i (reset d))))"

text \<open>Successive passes, and the passes of a run whose button edge was accepted.\<close>

fun run :: "inputs list \<Rightarrow> device \<Rightarrow> device" where
  "run [] d = d"
| "run (i # js) d = run js (loop i d)"

fun accepted :: "inputs list \<Rightarrow> device \<Rightarrow> bool list" where
  "accepted [] d = []"
| "accepted (i # js) d = buttonJustPressed i d # accepted js (loop i d)"

definition accepted_count :: "inputs list \<Rightarrow> device \<Rightarrow> nat" where
  "accepted_count js d = length (filter id (accepted js d))"

section \<open>Dashboard: reading the reported status\<close>

text \<open>
  The dashboard recovers the state from the reported status string by substring tests,
  in the order EMERGENCY, WARNING, SOS, NORMAL, with NORMAL as the default. The
  severity order NORMAL, WARNING, EMERGENCY, SOS is the order of the firmware's
  \<open>SystemState\<close> enumeration; OFFLINE is never read from a status and takes the
  lowest rank.
\<close>

datatype DeviceState = NORMAL | WARNING | EMERGENCY | SOS | OFFLINE

fun startsWith :: "string \<Rightarrow> string \<Rightarrow> bool" where
  "startsWith s [] = True"
| "startsWith [] (c # cs) = False"
| "startsWith (x # xs) (c # cs) = (x = c \<and> startsWith xs cs)"

fun includes_str :: "string \<Rightarrow> string \<Rightarrow> bool" where
  "includes_str [] sub = (sub = [])"
| "includes_str (x # xs) sub = (startsWith (x # xs) sub \<or> includes_str xs sub)"

definition mappedStatus :: "string \<Rightarrow> DeviceState" where
  "mappedStatus s =
     (if includes_str s ''EMERGENCY'' then EMERGENCY
      else if includes_str s ''WARNING'' then WARNING
      else if includes_str s ''SOS'' then SOS
      else if includes_str s ''NORMAL'' then NORMAL
      else NORMAL)"

fun rank :: "DeviceState \<Rightarrow> nat" where
  "rank NORMAL = 0"
| "rank WARNING = 1"
| "rank EMERGENCY = 2"
| "rank SOS = 3"
| "rank OFFLINE = 0"

definition severity :: "string \<Rightarrow> nat" where
  "severity s = rank (mappedStatus s)"

section \<open>Legacy firmware sketch: one pass of \<open>loop()\<close>\<close>

text \<open>
  The older sketch keeps the state in the enumeration \<open>SystemState\<close> and carries it from
  pass to pass. Its constructors take the suffix \<open>_st\<close>, the plain names being those of
  the dashboard's \<open>DeviceState\<close>; \<open>stateStrings\<close> is the table of that name. The three
  times are the uptime at the calls of \<open>millis()\<close> in the movement and inactivity
  sections; \<open>magnitude\<close> is \<open>movementMagnitude\<close>; \<open>button_low\<close> says that the SOS pin
  reads LOW; a failed temperature read (NaN) is \<open>None\<close> and is replaced by 0.
\<close>

datatype SystemState = STARTUP | NORMAL_st | WARNING_st | EMERGENCY_st | SOS_st

fun stateStrings :: "SystemState \<Rightarrow> string" where
  "stateStrings STARTUP = ''STARTUP''"
| "stateStrings NORMAL_st = ''NORMAL''"
| "stateStrings WARNING_st = ''WARNING''"
| "stateStrings EMERGENCY_st = ''EMERGENCY''"
| "stateStrings SOS_st = ''SOS''"

definition movementTimeout :: ulong where
  "movementTimeout = 30000"

record legacy =
  currentState :: SystemState
  sosActive_legacy :: bool
  lastMovementTime :: ulong

record legacy_inputs =
  temperature_in :: "real option"
  button_low :: bool
  magnitude :: real
  t_movement :: nat
  t_inactivity :: nat
  t_inactivity2 :: nat

definition legacy_sos :: "legacy_inputs \<Rightarrow> legacy \<Rightarrow> legacy" where
  "legacy_sos i s =
     (if button_low i
      then s\<lparr>sosActive_legacy := \<not> sosActive_legacy s, currentState := SOS_st\<rparr>
      else s)"

definition legacy_movement :: "legacy_inputs \<Rightarrow> legacy \<Rightarrow> legacy" where
  "legacy_movement i s =
     (if \<bar>magnitude i - 98 / 10\<bar> > 2
      then (let s1 = s\<lparr>lastMovementTime := millis (t_movement i)\<rparr>
            in if currentState s1 \<noteq> SOS_st then s1\<lparr>currentState := NORMAL_st\<rparr> else s1)
      else s)"

definition legacy_temperature :: "legacy_inputs \<Rightarrow> legacy \<Rightarrow> legacy" where
  "legacy_temperature i s =
     (let temperature = (case temperature_in i of None \<Rightarrow> 0 | Some t \<Rightarrow> t)
      in if temperature > 50
         then (if currentState s \<noteq> SOS_st then s\<lparr>currentState := EMERGENCY_st\<rparr> else s)
         else if temperature > 40
         then (if currentState s \<noteq> SOS_st \<and> currentState s \<noteq> EMERGENCY_st
               then s\<lparr>currentState := WARNING_st\<rparr> else s)
         else s)"

definition legacy_inactivity :: "legacy_inputs \<Rightarrow> legacy \<Rightarrow> legacy" where
  "legacy_inactivity i s =
     (if millis (t_inactivity i) - lastMovementTime s > movementTimeout
      then (let s1 = (if currentState s \<noteq> SOS_st \<and> currentState s \<noteq> EMERGENCY_st
                      then s\<lparr>currentState := WARNING_st\<rparr> else s)
            in if millis (t_inactivity2 i) - lastMovementTime s1 > movementTimeout * 2
               then (if currentState s1 \<noteq> SOS_st then s1\<lparr>currentState := EMERGENCY_st\<rparr> else s1)
               else s1)
      else s)"

definition legacy_loop :: "legacy_inputs \<Rightarrow> legacy \<Rightarrow> legacy" where
  "legacy_loop i s =
     legacy_inactivity i (legacy_temperature i (legacy_movement i (legacy_sos i s)))"

section \<open>Dashboard: liveness and rolling analytics\<close>

text \<open>
  The dashboard keeps the last data, the time of the last heartbeat, the simulation
  switch and the analytics histories in React state; \<open>dashboard\<close> has those fields.
  Times are milliseconds since the epoch, as \<open>getTime()\<close> returns them. An entry of
  \<open>tempHistory\<close> is the pair of \<open>time\<close> and \<open>temp\<close>, an entry of \<open>movementHistory\<close>
  the pair of \<open>time\<close> and \<open>moving\<close>, an entry of \<open>statusCounts\<close> the triple of
  \<open>name\<close>, \<open>value\<close> and \<open>color\<close>. The fields of the data that only feed the
  presentation (battery, signal, location, trail, alert log) are left out.
\<close>

datatype Movement = MOVING | STILL

record DeviceData =
  temperature :: real
  movement_of :: Movement
  status :: DeviceState

record rtdbData =
  rtdb_status :: "string option"
  rtdb_temperature :: "real option"
  rtdb_movement :: "string option"

record dashboard =
  deviceData :: "DeviceData option"
  lastHeartbeat :: "int option"
  useMock :: bool
  tempHistory :: "(string \<times> real) list"
  movementHistory :: "(string \<times> nat) list"
  statusCounts :: "(string \<times> nat \<times> string) list"

text \<open>\<open>xs.slice(-n)\<close>: the last \<open>n\<close> elements, all of them when there are fewer.\<close>

definition slice_last :: "nat \<Rightarrow> 'a list \<Rightarrow> 'a list" where
  "slice_last n xs = drop (length xs - n) xs"

definition count_match :: "string \<Rightarrow> DeviceState \<Rightarrow> bool" where
  "count_match name st =
     ((name = ''Normal'' \<and> st = NORMAL) \<or> (name = ''Warning'' \<and> st = WARNING)
      \<or> (name = ''Emergency'' \<and> st = EMERGENCY) \<or> (name = ''SOS'' \<and> st = SOS))"

definition pushAnalytics :: "string \<Rightarrow> real \<Rightarrow> Movement \<Rightarrow> DeviceState \<Rightarrow> dashboard \<Rightarrow> dashboard" where
  "pushAnalytics time temp mv st s =
     s\<lparr>tempHistory := slice_last 59 (tempHistory s) @ [(time, temp)],
       movementHistory := slice_last 59 (movementHistory s) @ [(time, if mv = MOVING then 1 else 0)],
       statusCounts := map (\<lambda>(name, v, color).
                              if count_match name st then (name, v + 1, color) else (name, v, color))
                           (statusCounts s)\<rparr>"

fun pushes :: "(string \<times> real \<times> Movement \<times> DeviceState) list \<Rightarrow> dashboard \<Rightarrow> dashboard" where
  "pushes [] s = s"
| "pushes ((time, temp, mv, st) # ps) s = pushes ps (pushAnalytics time temp mv st s)"

text \<open>
  The handler of a value event of the realtime database, at the time \<open>now\<close> with the
  formatted clock \<open>time\<close>. A snapshot that does not exist changes nothing.
\<close>

definition reported :: "rtdbData \<Rightarrow> DeviceState" where
  "reported r = mappedStatus (case rtdb_status r of None \<Rightarrow> [] | Some s \<Rightarrow> s)"

definition onValue :: "int \<Rightarrow> string \<Rightarrow> rtdbData option \<Rightarrow> dashboard \<Rightarrow> dashboard" where
  "onValue now time snap s =
     (case snap of
        None \<Rightarrow> s
      | Some r \<Rightarrow>
          (let data = \<lparr> temperature = (case rtdb_temperature r of None \<Rightarrow> 0 | Some t \<Rightarrow> t),
                         movement_of = (if rtdb_movement r = Some ''MOVING'' then MOVING else STILL),
                         status = reported r \<rparr>
           in (pushAnalytics time (temperature data) (movement_of data) (reported r)
                 (s\<lparr>deviceData := Some data\<rparr>))\<lparr>lastHeartbeat := Some now\<rparr>))"

definition isOnline :: "int \<Rightarrow> dashboard \<Rightarrow> bool" where
  "isOnline now s = (case lastHeartbeat s of None \<Rightarrow> False | Some hb \<Rightarrow> now - hb < 10000)"

definition data_status :: "dashboard \<Rightarrow> DeviceState" where
  "data_status s = (case deviceData s of None \<Rightarrow> NORMAL | Some data \<Rightarrow> status data)"

definition displayStatus :: "int \<Rightarrow> dashboard \<Rightarrow> DeviceState" where
  "displayStatus now s =
     (if useMock s then data_status s
      else if \<not> isOnline now s then OFFLINE else data_status s)"

text \<open>The initial React state.\<close>

definition init_dashboard :: dashboard where
  "init_dashboard = \<lparr> deviceData = None, lastHeartbeat = None, useMock = False,
     tempHistory = [], movementHistory = [],
     statusCounts = [(''Normal'', 0, ''#10b981''), (''Warning'', 0, ''#f59e0b''),
                     (''Emergency'', 0, ''#ef4444''), (''SOS'', 0, ''#a855f7'')] \<rparr>"

text \<open>The entries that a push appends to the two windows.\<close>

definition temp_entry :: "string \<times> real \<times> Movement \<times> DeviceState \<Rightarrow> string \<times> real" where
  "temp_entry p = (case p of (time, temp, mv, st) \<Rightarrow> (time, temp))"

definition moving_entry :: "string \<times> real \<times> Movement \<times> DeviceState \<Rightarrow> string \<times> nat" where
  "moving_entry p = (case p of (time, temp, mv, st) \<Rightarrow> (time, if mv = MOVING then 1 else 0))"

text \<open>
  What the status card shows. The body of the component, and with it \<open>displayStatus\<close>,
  is evaluated when the component is rendered, and the component is rendered again
  when one of its state setters is called. With the simulation off the setters are
  called by the value handler alone; the interval timer is created only when
  \<open>useMock\<close> is set. \<open>screen\<close> is the React state together with the status that the
  last rendering put on the card; a value event without a snapshot calls no setter
  and leaves the screen as it is. An event is the triple of its time, its formatted
  clock and its snapshot.
\<close>

record screen =
  shown_state :: dashboard
  card :: DeviceState

definition render :: "int \<Rightarrow> dashboard \<Rightarrow> screen" where
  "render now s = \<lparr> shown_state = s, card = displayStatus now s \<rparr>"

definition mount :: "int \<Rightarrow> screen" where
  "mount now = render now init_dashboard"

definition value_event :: "int \<Rightarrow> string \<Rightarrow> rtdbData option \<Rightarrow> screen \<Rightarrow> screen" where
  "value_event now time snap scr =
     (case snap of
        None \<Rightarrow> scr
      | Some r \<Rightarrow> render now (onValue now time snap (shown_state scr)))"

fun value_events :: "(int \<times> string \<times> rtdbData option) list \<Rightarrow> screen \<Rightarrow> screen" where
  "value_events [] scr = scr"
| "value_events ((now, time, snap) # es) scr = value_events es (value_event now time snap scr)"

section \<open>Ingress route: the POST handler\<close>










section \<open>Concrete passes\<close>

text \<open>
  A pass at uptime \<open>t\<close> in which all three calls of \<open>millis()\<close> return \<open>t\<close>, the button
  reads \<open>b\<close>, the accelerometer magnitude is \<open>acc\<close> and the temperature is \<open>temp\<close>.
\<close>

definition pass_at :: "nat \<Rightarrow> bool \<Rightarrow> real \<Rightarrow> real \<Rightarrow> inputs" where
  "pass_at t b acc temp = \<lparr> mpu = Some acc, t_noMoveStart = t, t_noMoveDuration = t,
     dht = Some temp, button = b, t_button = t \<rparr>"

text \<open>A pass with the button held down, and a pass with the button released.\<close>

definition pressed :: "nat \<Rightarrow> inputs" where
  "pressed t = pass_at t False 2 25"

definition released :: "nat \<Rightarrow> inputs" where
  "released t = pass_at t True 2 25"

text \<open>
  The two fields of the latch as a pair, and the effect of an accepted edge on the pair.
\<close>

definition latch_of :: "device \<Rightarrow> bool \<times> int" where
  "latch_of d = (sosActive d, sosDeactivateCount d)"

definition latch_press :: "bool \<times> int \<Rightarrow> bool \<times> int" where
  "latch_press p =
     (if \<not> fst p then (True, 0) else if 2 \<le> snd p + 1 then (False, 0) else (True, snd p + 1))"

lemmas pass_defs = pass_at_def init_device_def loop_def sensors_def motion_def reset_def
  mpu6050_def movement_def movement_timer_def noMoveDuration_def movement_logic_def
  temperature_read_def dht_logic_def buttonJustPressed_def debounce_def sos_press_def
  sos_latch_def sos_override_def millis_def DEBOUNCE_MS_def stillness_ms_def Let_def

section \<open>Facts about one pass of the latching firmware\<close>

lemma mappedStatus_literals:
  "mappedStatus ''NORMAL'' = NORMAL"
  "mappedStatus ''WARNING'' = WARNING"
  "mappedStatus ''EMERGENCY'' = EMERGENCY"
  "mappedStatus ''EMERGENCY (HIGH TEMP)'' = EMERGENCY"
  "mappedStatus ''SOS'' = SOS"
  "mappedStatus ''STARTUP'' = NORMAL"
  by (simp_all add: mappedStatus_def)

lemma severity_literals:
  "severity ''NORMAL'' = 0"
  "severity ''WARNING'' = 1"
  "severity ''EMERGENCY'' = 2"
  "severity ''EMERGENCY (HIGH TEMP)'' = 2"
  "severity ''SOS'' = 3"
  by (simp_all add: severity_def mappedStatus_literals)

text \<open>The sensor sections leave the latch alone.\<close>

lemma reset_latch_fields:
  "sosActive (reset d) = sosActive d"
  "sosDeactivateCount (reset d) = sosDeactivateCount d"
  "lastButtonState (reset d) = lastButtonState d"
  "lastDebounceTime (reset d) = lastDebounceTime d"
  by (simp_all add: reset_def)

lemma mpu6050_latch_fields:
  "sosActive (mpu6050 i d) = sosActive d"
  "sosDeactivateCount (mpu6050 i d) = sosDeactivateCount d"
  "lastButtonState (mpu6050 i d) = lastButtonState d"
  "lastDebounceTime (mpu6050 i d) = lastDebounceTime d"
  by (simp_all add: mpu6050_def split: option.splits)

lemma movement_timer_latch_fields:
  "sosActive (movement_timer i d) = sosActive d"
  "sosDeactivateCount (movement_timer i d) = sosDeactivateCount d"
  "lastButtonState (movement_timer i d) = lastButtonState d"
  "lastDebounceTime (movement_timer i d) = lastDebounceTime d"
  by (simp_all add: movement_timer_def)

lemma movement_logic_latch_fields:
  "sosActive (movement_logic i d) = sosActive d"
  "sosDeactivateCount (movement_logic i d) = sosDeactivateCount d"
  "lastButtonState (movement_logic i d) = lastButtonState d"
  "lastDebounceTime (movement_logic i d) = lastDebounceTime d"
  by (simp_all add: movement_logic_def)

lemma dht_logic_latch_fields:
  "sosActive (dht_logic i d) = sosActive d"
  "sosDeactivateCount (dht_logic i d) = sosDeactivateCount d"
  "lastButtonState (dht_logic i d) = lastButtonState d"
  "lastDebounceTime (dht_logic i d) = lastDebounceTime d"
  by (simp_all add: dht_logic_def Let_def split: option.splits)

lemma sensors_latch_fields:
  "sosActive (sensors i d) = sosActive d"
  "sosDeactivateCount (sensors i d) = sosDeactivateCount d"
  "lastButtonState (sensors i d) = lastButtonState d"
  "lastDebounceTime (sensors i d) = lastDebounceTime d"
  by (simp_all only: sensors_def motion_def dht_logic_latch_fields movement_logic_latch_fields
      movement_timer_latch_fields mpu6050_latch_fields reset_latch_fields)

lemma buttonJustPressed_sensors:
  "buttonJustPressed i (sensors j d) = buttonJustPressed i d"
  by (simp only: buttonJustPressed_def sensors_latch_fields)

text \<open>The device state after each section.\<close>

lemma motion_start_deviceState:
  "deviceState (movement_timer i (mpu6050 i (reset d))) = ''NORMAL''"
  by (simp add: movement_timer_def mpu6050_def reset_def split: option.splits)

lemma movement_logic_deviceState:
  "deviceState (movement_logic i d) =
     (if \<not> notMoving d then deviceState d
      else if 5 \<le> noMoveDuration i d \<and> noMoveDuration i d < 15 then ''WARNING''
      else if 15 \<le> noMoveDuration i d then ''EMERGENCY''
      else deviceState d)"
  by (simp add: movement_logic_def)

lemma dht_logic_deviceState:
  "deviceState (dht_logic i d) =
     (if temperature_read i > 50 then ''EMERGENCY (HIGH TEMP)'' else deviceState d)"
  by (simp add: dht_logic_def Let_def split: option.splits)

lemma motion_deviceState:
  "deviceState (motion i d) \<in> {''NORMAL'', ''WARNING'', ''EMERGENCY''}"
  unfolding motion_def movement_logic_deviceState motion_start_deviceState
  by simp

lemma sensors_deviceState:
  "deviceState (sensors i d) \<in>
     {''NORMAL'', ''WARNING'', ''EMERGENCY'', ''EMERGENCY (HIGH TEMP)''}"
  using motion_deviceState[of i d] unfolding sensors_def dht_logic_deviceState
  by (cases "temperature_read i > 50") auto

lemma sos_latch_deviceState: "deviceState (sos_latch i d) = deviceState d"
  by (simp add: sos_latch_def sos_press_def debounce_def Let_def)

lemma sos_override_sosActive: "sosActive (sos_override d) = sosActive d"
  by (simp add: sos_override_def)

lemma loop_deviceState:
  "deviceState (loop i d) =
     (if sosActive (loop i d) then ''SOS'' else deviceState (sensors i d))"
  by (simp add: loop_def sos_override_def sos_latch_deviceState)

text \<open>The latch fields after a pass, by whether the edge of the pass was accepted.\<close>

lemma loop_latch_rejected:
  assumes "\<not> buttonJustPressed i d"
  shows "sosActive (loop i d) = sosActive d"
    and "sosDeactivateCount (loop i d) = sosDeactivateCount d"
    and "lastDebounceTime (loop i d) = lastDebounceTime d"
  using assms
  by (simp_all add: loop_def sos_override_def sos_latch_def debounce_def
      buttonJustPressed_sensors sensors_latch_fields)

lemma loop_latch_accepted:
  assumes "buttonJustPressed i d"
  shows "sosActive (loop i d) = sosActive (sos_press d)"
    and "sosDeactivateCount (loop i d) = sosDeactivateCount (sos_press d)"
    and "lastDebounceTime (loop i d) = millis (t_button i)"
  using assms
  by (simp_all add: loop_def sos_override_def sos_latch_def debounce_def sos_press_def
      buttonJustPressed_sensors sensors_latch_fields Let_def)

lemma loop_lastButtonState: "lastButtonState (loop i d) = button i"
  by (simp add: loop_def sos_override_def sos_latch_def debounce_def sos_press_def Let_def)

section \<open>The legacy sketch\<close>

lemma legacy_temperature_band:
  assumes "temperature_in i = Some t" and "40 < t" and "t \<le> 50"
  shows "currentState (legacy_temperature i s) \<in> {WARNING_st, EMERGENCY_st, SOS_st}"
  using assms by (simp add: legacy_temperature_def)

lemma legacy_inactivity_raises:
  assumes "currentState s \<in> {WARNING_st, EMERGENCY_st, SOS_st}"
  shows "currentState (legacy_inactivity i s) \<in> {WARNING_st, EMERGENCY_st, SOS_st}"
  using assms by (auto simp: legacy_inactivity_def Let_def)

lemma legacy_sos_latched:
  assumes "button_low i \<or> currentState s = SOS_st"
  shows "currentState (legacy_loop i s) = SOS_st"
proof -
  have "currentState (legacy_sos i s) = SOS_st"
    using assms by (auto simp: legacy_sos_def)
  then have "currentState (legacy_movement i (legacy_sos i s)) = SOS_st"
    by (simp add: legacy_movement_def Let_def)
  then have "currentState (legacy_temperature i (legacy_movement i (legacy_sos i s))) = SOS_st"
    by (simp add: legacy_temperature_def Let_def)
  then show ?thesis
    by (simp add: legacy_loop_def legacy_inactivity_def Let_def)
qed

lemma severity_stateStrings:
  "st \<in> {WARNING_st, EMERGENCY_st, SOS_st} \<Longrightarrow> rank WARNING \<le> severity (stateStrings st)"
  by (auto simp: severity_literals)

lemma legacy_not_sos:
  assumes "\<not> button_low i" and "currentState s \<noteq> SOS_st"
  shows "currentState (legacy_loop i s) \<noteq> SOS_st"
proof -
  have "currentState (legacy_sos i s) \<noteq> SOS_st"
    using assms by (simp add: legacy_sos_def)
  then have "currentState (legacy_movement i (legacy_sos i s)) \<noteq> SOS_st"
    by (simp add: legacy_movement_def Let_def)
  then have "currentState (legacy_temperature i (legacy_movement i (legacy_sos i s))) \<noteq> SOS_st"
    by (simp add: legacy_temperature_def Let_def)
  then show ?thesis
    by (simp add: legacy_loop_def legacy_inactivity_def Let_def)
qed

lemma legacy_temperature_critical:
  assumes "temperature_in i = Some t" and "50 < t"
  shows "currentState (legacy_temperature i s) \<in> {EMERGENCY_st, SOS_st}"
  using assms by (simp add: legacy_temperature_def)

lemma legacy_inactivity_keeps_critical:
  assumes "currentState s \<in> {EMERGENCY_st, SOS_st}"
  shows "currentState (legacy_inactivity i s) \<in> {EMERGENCY_st, SOS_st}"
  using assms by (auto simp: legacy_inactivity_def Let_def)

lemma severity_stateStrings_critical:
  "st \<in> {EMERGENCY_st, SOS_st} \<Longrightarrow> rank EMERGENCY \<le> severity (stateStrings st)"
  by (auto simp: severity_literals)

section \<open>The claims about one pass\<close>

lemma loop_sosActive:
  "sosActive (loop i d) =
     (if buttonJustPressed i d then \<not> sosActive d \<or> sosDeactivateCount d < 1 else sosActive d)"
proof (cases "buttonJustPressed i d")
  case True
  then show ?thesis
    by (simp add: loop_latch_accepted(1) sos_press_def Let_def)
next
  case False
  then show ?thesis
    by (simp add: loop_latch_rejected(1))
qed

lemma buttonJustPressed_cong:
  "button i' = button i \<Longrightarrow> t_button i' = t_button i \<Longrightarrow>
   buttonJustPressed i' d = buttonJustPressed i d"
  by (simp add: buttonJustPressed_def)

text \<open>
  C1, as amended. In the latching firmware, after every pass and whatever the
  temperature and movement readings, the device state is SOS exactly when the latch is
  active after the button section, and the dashboard reads SOS in exactly those passes.
  Whether the latch is active then depends on the latch before the pass and on the
  button alone: without an accepted edge it is as it was, an accepted edge activates
  an inactive latch and leaves an active one active unless it is the second cancel
  press. So two passes that agree on the button and on the uptime of the button
  section agree on SOS, whatever else they read. In the legacy sketch the flag
  \<open>sosActive\<close> is not what decides: the state after a pass is SOS exactly when the
  button is down in that pass or the state was SOS before.
\<close>

theorem sos_iff_latch_active:
  "(deviceState (loop i d) = ''SOS'') = sosActive (loop i d)
   \<and> (mappedStatus (deviceState (loop i d)) = SOS) = sosActive (loop i d)
   \<and> sosActive (loop i d) =
       (if buttonJustPressed i d then \<not> sosActive d \<or> sosDeactivateCount d < 1
        else sosActive d)
   \<and> (button i' = button i \<and> t_button i' = t_button i
       \<longrightarrow> sosActive (loop i' d) = sosActive (loop i d)
         \<and> (deviceState (loop i' d) = ''SOS'') = (deviceState (loop i d) = ''SOS''))
   \<and> (currentState (legacy_loop j s) = SOS_st) = (button_low j \<or> currentState s = SOS_st)"
proof -
  have out: "(deviceState (loop k d) = ''SOS'') = sosActive (loop k d)
      \<and> (mappedStatus (deviceState (loop k d)) = SOS) = sosActive (loop k d)" for k
  proof (cases "sosActive (loop k d)")
    case True
    then show ?thesis by (simp add: loop_deviceState mappedStatus_literals)
  next
    case False
    then have eq: "deviceState (loop k d) = deviceState (sensors k d)"
      by (simp add: loop_deviceState)
    from sensors_deviceState[of k d] False show ?thesis
      unfolding eq by (auto simp: mappedStatus_literals)
  qed
  have latch: "sosActive (loop i d) =
      (if buttonJustPressed i d then \<not> sosActive d \<or> sosDeactivateCount d < 1
       else sosActive d)"
    by (rule loop_sosActive)
  have same: "sosActive (loop i' d) = sosActive (loop i d)
      \<and> (deviceState (loop i' d) = ''SOS'') = (deviceState (loop i d) = ''SOS'')"
    if "button i' = button i" and "t_button i' = t_button i"
  proof -
    have "sosActive (loop i' d) = sosActive (loop i d)"
      by (simp only: loop_sosActive buttonJustPressed_cong[OF that])
    then show ?thesis
      using out[of i] out[of i'] by simp
  qed
  have legacy: "(currentState (legacy_loop j s) = SOS_st) = (button_low j \<or> currentState s = SOS_st)"
    using legacy_sos_latched[of j s] legacy_not_sos[of j s] by blast
  from out[of i] latch same legacy show ?thesis by blast
qed

theorem sos_iff_latch_active_witness:
  "sosActive (run [pressed 900, released 1000] init_device)
   \<and> \<not> buttonJustPressed (pass_at 30000 True 1 55) (run [pressed 900, released 1000] init_device)
   \<and> button (pass_at 31000 True 2 20) = button (pass_at 30000 True 1 55)
   \<and> deviceState (sensors (pass_at 30000 True 1 55) (run [pressed 900, released 1000] init_device))
       = ''EMERGENCY (HIGH TEMP)''
   \<and> deviceState (loop (pass_at 30000 True 1 55) (run [pressed 900, released 1000] init_device))
       = ''SOS''
   \<and> deviceState (loop ((pass_at 31000 True 2 20)\<lparr>t_button := 30000\<rparr>)
        (run [pressed 900, released 1000] init_device)) = ''SOS''"
proof -
  let ?d = "run [pressed 900, released 1000] init_device"
  let ?i = "pass_at 30000 True 1 55"
  let ?i' = "(pass_at 31000 True 2 20)\<lparr>t_button := 30000\<rparr>"
  have active: "sosActive ?d"
    by (simp add: pressed_def released_def pass_defs)
  have no_edge: "\<not> buttonJustPressed ?i ?d"
    by (simp add: pressed_def released_def pass_defs)
  have agree: "button ?i' = button ?i \<and> t_button ?i' = t_button ?i"
    by (simp add: pass_at_def)
  have hot: "deviceState (sensors ?i ?d) = ''EMERGENCY (HIGH TEMP)''"
    by (simp add: sensors_def dht_logic_deviceState temperature_read_def pass_at_def)
  from sos_iff_latch_active[of ?i ?d ?i'] active no_edge agree hot show ?thesis
    by (simp add: pass_at_def)
qed

text \<open>
  In the legacy sketch, after two passes with the button down the flag \<open>sosActive\<close> is
  off again and the state is SOS.
\<close>

theorem sos_legacy_flag_counterexample:
  "currentState (legacy_loop
       \<lparr> temperature_in = Some 20, button_low = True, magnitude = 13,
         t_movement = 2000, t_inactivity = 2000, t_inactivity2 = 2000 \<rparr>
     (legacy_loop
       \<lparr> temperature_in = Some 20, button_low = True, magnitude = 13,
         t_movement = 1000, t_inactivity = 1000, t_inactivity2 = 1000 \<rparr>
       \<lparr> currentState = NORMAL_st, sosActive_legacy = False, lastMovementTime = 0 \<rparr>))
     = SOS_st
   \<and> \<not> sosActive_legacy (legacy_loop
       \<lparr> temperature_in = Some 20, button_low = True, magnitude = 13,
         t_movement = 2000, t_inactivity = 2000, t_inactivity2 = 2000 \<rparr>
     (legacy_loop
       \<lparr> temperature_in = Some 20, button_low = True, magnitude = 13,
         t_movement = 1000, t_inactivity = 1000, t_inactivity2 = 1000 \<rparr>
       \<lparr> currentState = NORMAL_st, sosActive_legacy = False, lastMovementTime = 0 \<rparr>))"
  by (simp add: legacy_loop_def legacy_inactivity_def legacy_temperature_def
      legacy_movement_def legacy_sos_def movementTimeout_def millis_def Let_def)







text \<open>
  C2, as amended. In a pass whose temperature reading is strictly above 50 degrees C the
  resolved severity is at least EMERGENCY: in the latching firmware the state is
  EMERGENCY (HIGH TEMP) unless the SOS latch is active, and in the legacy sketch the
  state is EMERGENCY or SOS.
\<close>

theorem critical_temperature_emergency:
  assumes "50 < t"
  shows "(dht i = Some t
           \<longrightarrow> rank EMERGENCY \<le> severity (deviceState (loop i d))
             \<and> deviceState (loop i d) =
                 (if sosActive (loop i d) then ''SOS'' else ''EMERGENCY (HIGH TEMP)''))
       \<and> (temperature_in j = Some t
           \<longrightarrow> rank EMERGENCY \<le> severity (stateStrings (currentState (legacy_loop j s))))"
proof -
  have latching: "rank EMERGENCY \<le> severity (deviceState (loop i d))
      \<and> deviceState (loop i d) =
          (if sosActive (loop i d) then ''SOS'' else ''EMERGENCY (HIGH TEMP)'')"
    if "dht i = Some t"
  proof -
    have "temperature_read i > 50"
      using that assms by (simp add: temperature_read_def)
    then have st: "deviceState (loop i d) =
        (if sosActive (loop i d) then ''SOS'' else ''EMERGENCY (HIGH TEMP)'')"
      by (simp add: loop_deviceState sensors_def dht_logic_deviceState)
    have "rank EMERGENCY \<le> severity (deviceState (loop i d))"
      unfolding st by (simp add: severity_literals)
    with st show ?thesis by blast
  qed
  have legacy: "rank EMERGENCY \<le> severity (stateStrings (currentState (legacy_loop j s)))"
    if "temperature_in j = Some t"
    unfolding legacy_loop_def
    by (intro severity_stateStrings_critical legacy_inactivity_keeps_critical
        legacy_temperature_critical[OF that assms])
  from latching legacy show ?thesis by blast
qed

theorem critical_temperature_emergency_witness:
  "(50 :: real) < 55 \<and> dht (pass_at 1000 True 2 55) = Some 55
   \<and> deviceState (loop (pass_at 1000 True 2 55) init_device) = ''EMERGENCY (HIGH TEMP)''
   \<and> rank EMERGENCY \<le> severity (stateStrings (currentState (legacy_loop
        \<lparr> temperature_in = Some 55, button_low = False, magnitude = 13,
          t_movement = 1000, t_inactivity = 1000, t_inactivity2 = 1000 \<rparr>
        \<lparr> currentState = NORMAL_st, sosActive_legacy = False, lastMovementTime = 0 \<rparr>)))"
proof -
  have h1: "dht (pass_at 1000 True 2 55) = Some 55"
    by (simp add: pass_at_def)
  have h2: "(50 :: real) < 55"
    by simp
  have h3: "\<not> sosActive (loop (pass_at 1000 True 2 55) init_device)"
    by (simp add: pass_defs)
  from critical_temperature_emergency[OF h2, of "pass_at 1000 True 2 55" init_device
      "\<lparr> temperature_in = Some 55, button_low = False, magnitude = 13,
          t_movement = 1000, t_inactivity = 1000, t_inactivity2 = 1000 \<rparr>"
      "\<lparr> currentState = NORMAL_st, sosActive_legacy = False, lastMovementTime = 0 \<rparr>"]
    h1 h2 h3
  show ?thesis by simp
qed

text \<open>
  At exactly 50 degrees C, moving and with the latch inactive, the state of the latching
  firmware is NORMAL and the state of the legacy sketch is WARNING.
\<close>

theorem critical_temperature_at_threshold_counterexample:
  "dht (pass_at 1000 True 2 50) = Some 50 \<and> (50 :: real) \<le> 50
   \<and> \<not> sosActive (loop (pass_at 1000 True 2 50) init_device)
   \<and> deviceState (loop (pass_at 1000 True 2 50) init_device) = ''NORMAL''
   \<and> severity (deviceState (loop (pass_at 1000 True 2 50) init_device)) < rank EMERGENCY
   \<and> currentState (legacy_loop
        \<lparr> temperature_in = Some 50, button_low = False, magnitude = 13,
          t_movement = 1000, t_inactivity = 1000, t_inactivity2 = 1000 \<rparr>
        \<lparr> currentState = NORMAL_st, sosActive_legacy = False, lastMovementTime = 0 \<rparr>)
       = WARNING_st"
proof -
  have st: "deviceState (loop (pass_at 1000 True 2 50) init_device) = ''NORMAL''"
    by (simp add: pass_defs)
  have idle: "\<not> sosActive (loop (pass_at 1000 True 2 50) init_device)"
    by (simp add: pass_defs)
  have legacy: "currentState (legacy_loop
        \<lparr> temperature_in = Some 50, button_low = False, magnitude = 13,
          t_movement = 1000, t_inactivity = 1000, t_inactivity2 = 1000 \<rparr>
        \<lparr> currentState = NORMAL_st, sosActive_legacy = False, lastMovementTime = 0 \<rparr>)
       = WARNING_st"
    by (simp add: legacy_loop_def legacy_inactivity_def legacy_temperature_def
        legacy_movement_def legacy_sos_def movementTimeout_def millis_def Let_def)
  from idle legacy show ?thesis
    unfolding st by (simp add: severity_literals pass_at_def)
qed

section \<open>The SOS latch over a run\<close>

lemma latch_of_sos_press: "latch_of (sos_press d) = latch_press (latch_of d)"
  by (simp add: latch_of_def latch_press_def sos_press_def Let_def)

lemma latch_of_loop:
  "latch_of (loop i d) = (if buttonJustPressed i d then latch_press (latch_of d) else latch_of d)"
  using loop_latch_accepted(1,2)[of i d] loop_latch_rejected(1,2)[of i d] latch_of_sos_press[of d]
  by (simp add: latch_of_def)

lemma accepted_count_Cons:
  "accepted_count (i # js) d =
     (if buttonJustPressed i d then Suc (accepted_count js (loop i d))
      else accepted_count js (loop i d))"
  by (simp add: accepted_count_def)

lemma accepted_count_Nil: "accepted_count [] d = 0"
  by (simp add: accepted_count_def)

lemma latch_of_run:
  "latch_of (run js d) = (latch_press ^^ accepted_count js d) (latch_of d)"
proof (induction js arbitrary: d)
  case Nil
  show ?case by (simp add: accepted_count_Nil)
next
  case (Cons i js)
  show ?case
    by (simp add: Cons.IH latch_of_loop accepted_count_Cons funpow_swap1)
qed

lemma latch_press_closed:
  "p \<in> {(False, 0), (True, 0), (True, 1)} \<Longrightarrow> latch_press p \<in> {(False, 0), (True, 0), (True, 1)}"
  by (auto simp: latch_press_def)

lemma latch_press_funpow_closed:
  "p \<in> {(False, 0), (True, 0), (True, 1)} \<Longrightarrow>
   (latch_press ^^ n) p \<in> {(False, 0), (True, 0), (True, 1)}"
proof (induction n)
  case 0
  then show ?case by simp
next
  case (Suc n)
  then show ?case using latch_press_closed[of "(latch_press ^^ n) p"] by simp
qed

lemma latch_of_reachable:
  "latch_of (run js init_device) \<in> {(False, 0), (True, 0), (True, 1)}"
  by (simp only: latch_of_run) (rule latch_press_funpow_closed, simp add: latch_of_def init_device_def)

lemma run_append: "run (xs @ ys) d = run ys (run xs d)"
  by (induction xs arbitrary: d) simp_all

lemma accepted_length: "length (accepted js d) = length js"
  by (induction js arbitrary: d) simp_all

lemma accepted_nth:
  "k < length js \<Longrightarrow> accepted js d ! k = buttonJustPressed (js ! k) (run (take k js) d)"
proof (induction js arbitrary: d k)
  case Nil
  then show ?case by simp
next
  case (Cons i js)
  then show ?case by (cases k) simp_all
qed

lemma run_take_Suc:
  "k < length js \<Longrightarrow> run (take (Suc k) js) d = loop (js ! k) (run (take k js) d)"
  by (simp add: take_Suc_conv_app_nth run_append)

section \<open>Debounce\<close>

lemma millis_diff: "b \<le> a \<Longrightarrow> unat (millis a - millis b) = (a - b) mod 2 ^ 32"
  by (simp add: millis_def unat_of_nat flip: of_nat_diff)

lemma accepted_gap:
  assumes "buttonJustPressed i d" and "lastDebounceTime d = millis T0" and "T0 \<le> t_button i"
  shows "T0 + 200 \<le> t_button i"
proof -
  have "(200 :: ulong) \<le> millis (t_button i) - millis T0"
    using assms(1,2) by (simp add: buttonJustPressed_def DEBOUNCE_MS_def)
  then have "200 \<le> unat (millis (t_button i) - millis T0)"
    by (simp add: word_le_nat_alt)
  then have "200 \<le> (t_button i - T0) mod 2 ^ 32"
    by (simp add: millis_diff assms(3))
  moreover have "(t_button i - T0) mod 2 ^ 32 \<le> t_button i - T0"
    by (rule mod_less_eq_dividend)
  ultimately show ?thesis using assms(3) by linarith
qed

lemma loop_lastDebounceTime:
  "lastDebounceTime d = millis T0 \<Longrightarrow>
   lastDebounceTime (loop i d) = millis (if buttonJustPressed i d then t_button i else T0)"
  using loop_latch_accepted(3)[of i d] loop_latch_rejected(3)[of i d] by simp

lemma accepted_after_debounce:
  assumes "lastDebounceTime d = millis T0" and "\<forall>i \<in> set js. T0 \<le> t_button i"
    and "sorted (map t_button js)" and "k < length js" and "accepted js d ! k"
  shows "T0 + 200 \<le> t_button (js ! k)"
  using assms
proof (induction js arbitrary: d T0 k)
  case Nil
  then show ?case by simp
next
  case (Cons i js)
  show ?case
  proof (cases k)
    case 0
    with Cons.prems show ?thesis
      using accepted_gap[of i d T0] by simp
  next
    case (Suc k')
    let ?T1 = "if buttonJustPressed i d then t_button i else T0"
    have t1: "lastDebounceTime (loop i d) = millis ?T1"
      using Cons.prems(1) by (rule loop_lastDebounceTime)
    have ge: "T0 \<le> ?T1"
      using Cons.prems(2) by simp
    have later: "\<forall>j \<in> set js. ?T1 \<le> t_button j"
      using Cons.prems(2,3) by auto
    have "?T1 + 200 \<le> t_button (js ! k')"
      using Cons.prems(3,4,5) Suc
      by (intro Cons.IH[OF t1 later]) simp_all
    with ge Suc show ?thesis by simp
  qed
qed

lemma accepted_pair_gap:
  assumes "lastDebounceTime d = millis T0" and "\<forall>i \<in> set js. T0 \<le> t_button i"
    and "sorted (map t_button js)" and "a < b" and "b < length js"
    and "accepted js d ! a" and "accepted js d ! b"
  shows "t_button (js ! a) + 200 \<le> t_button (js ! b)"
  using assms
proof (induction js arbitrary: d T0 a b)
  case Nil
  then show ?case by simp
next
  case (Cons i js)
  from Cons.prems(4) obtain b' where b: "b = Suc b'"
    by (cases b) simp_all
  let ?T1 = "if buttonJustPressed i d then t_button i else T0"
  have t1: "lastDebounceTime (loop i d) = millis ?T1"
    using Cons.prems(1) by (rule loop_lastDebounceTime)
  have later: "\<forall>j \<in> set js. ?T1 \<le> t_button j"
    using Cons.prems(2,3) by auto
  have sorted: "sorted (map t_button js)"
    using Cons.prems(3) by simp
  have b'_len: "b' < length js" and b'_acc: "accepted js (loop i d) ! b'"
    using Cons.prems(5,7) b by simp_all
  show ?case
  proof (cases a)
    case 0
    then have "buttonJustPressed i d"
      using Cons.prems(6) by simp
    then have "t_button i + 200 \<le> t_button (js ! b')"
      using accepted_after_debounce[OF t1 later sorted b'_len b'_acc] by simp
    with 0 b show ?thesis by simp
  next
    case (Suc a')
    then have "a' < b'" and "accepted js (loop i d) ! a'"
      using Cons.prems(4,6) b by simp_all
    then have "t_button (js ! a') + 200 \<le> t_button (js ! b')"
      using Cons.IH[OF t1 later sorted _ b'_len _ b'_acc] by simp
    with Suc b show ?thesis by simp
  qed
qed


lemmas click_defs = pressed_def released_def pass_defs

text \<open>
  C5. From the ACTIVE latch with the counter at 0, over any run of passes: while fewer
  than two edges have been accepted the latch is still ACTIVE (with the counter at 1
  after one edge), and with the second accepted edge it is IDLE and the counter is 0
  again.
\<close>

theorem sos_deactivation_needs_two_edges:
  assumes "sosActive d" and "sosDeactivateCount d = 0" and "accepted_count js d \<le> 2"
  shows "sosActive (run js d) = (accepted_count js d < 2)
       \<and> sosDeactivateCount (run js d) = (if accepted_count js d = 1 then 1 else 0)"
proof -
  have start: "latch_of d = (True, 0)"
    using assms(1,2) by (simp add: latch_of_def)
  consider "accepted_count js d = 0" | "accepted_count js d = 1" | "accepted_count js d = 2"
    using assms(3) by linarith
  then have "latch_of (run js d) =
      (accepted_count js d < 2, if accepted_count js d = 1 then 1 else 0)"
  proof cases
    case 1
    then show ?thesis by (simp add: latch_of_run start)
  next
    case 2
    then show ?thesis by (simp add: latch_of_run start latch_press_def)
  next
    case 3
    then show ?thesis by (simp add: latch_of_run start latch_press_def numeral_2_eq_2)
  qed
  then show ?thesis by (simp add: latch_of_def)
qed

theorem sos_deactivation_needs_two_edges_witness:
  "sosActive (run [pressed 900, released 1000] init_device)
   \<and> sosDeactivateCount (run [pressed 900, released 1000] init_device) = 0
   \<and> accepted_count [pressed 1900, released 2000]
        (run [pressed 900, released 1000] init_device) = 1
   \<and> sosActive (run [pressed 1900, released 2000]
        (run [pressed 900, released 1000] init_device))
   \<and> accepted_count [pressed 1900, released 2000, pressed 2900, released 3000]
        (run [pressed 900, released 1000] init_device) = 2
   \<and> \<not> sosActive (run [pressed 1900, released 2000, pressed 2900, released 3000]
        (run [pressed 900, released 1000] init_device))
   \<and> sosDeactivateCount (run [pressed 1900, released 2000, pressed 2900, released 3000]
        (run [pressed 900, released 1000] init_device)) = 0"
proof -
  let ?d = "run [pressed 900, released 1000] init_device"
  have h1: "sosActive ?d"
    by (simp add: click_defs)
  have h2: "sosDeactivateCount ?d = 0"
    by (simp add: click_defs)
  have one: "accepted_count [pressed 1900, released 2000] ?d = 1"
    by (simp add: accepted_count_def click_defs)
  have two: "accepted_count [pressed 1900, released 2000, pressed 2900, released 3000] ?d = 2"
    by (simp add: accepted_count_def click_defs)
  from sos_deactivation_needs_two_edges[OF h1 h2, of "[pressed 1900, released 2000]"]
    sos_deactivation_needs_two_edges[OF h1 h2,
      of "[pressed 1900, released 2000, pressed 2900, released 3000]"]
    h1 h2 one two
  show ?thesis by simp
qed


text \<open>
  C10. In every state reached from the initial state by passes of the loop, the counter
  is 0, or the latch is active and the counter is 1. Hence from a reachable state with
  the latch inactive, two accepted edges (the activation and one more press) leave the
  latch active with the counter at 1: the press after an activation never deactivates.
\<close>

theorem sos_counter_invariant:
  "(sosDeactivateCount (run js init_device) = 0
      \<or> (sosActive (run js init_device) \<and> sosDeactivateCount (run js init_device) = 1))
   \<and> (\<not> sosActive (run js init_device) \<and> accepted_count ks (run js init_device) = 2
        \<longrightarrow> sosActive (run ks (run js init_device))
          \<and> sosDeactivateCount (run ks (run js init_device)) = 1)"
proof -
  let ?s = "run js init_device"
  have inv: "latch_of ?s \<in> {(False, 0), (True, 0), (True, 1)}"
    by (rule latch_of_reachable)
  have first: "sosDeactivateCount ?s = 0 \<or> (sosActive ?s \<and> sosDeactivateCount ?s = 1)"
    using inv by (auto simp: latch_of_def)
  have second: "sosActive (run ks ?s) \<and> sosDeactivateCount (run ks ?s) = 1"
    if idle: "\<not> sosActive ?s" and two: "accepted_count ks ?s = 2"
  proof -
    have "latch_of ?s = (False, 0)"
      using inv idle by (auto simp: latch_of_def)
    then have "latch_of (run ks ?s) = (True, 1)"
      by (simp add: latch_of_run two latch_press_def numeral_2_eq_2)
    then show ?thesis by (simp add: latch_of_def)
  qed
  from first second show ?thesis by blast
qed

theorem sos_counter_invariant_witness:
  "\<not> sosActive (run [pressed 900, released 1000, pressed 1900, released 2000,
                      pressed 2900, released 3000] init_device)
   \<and> accepted_count [pressed 3900, released 4000, pressed 4900, released 5000]
        (run [pressed 900, released 1000, pressed 1900, released 2000,
              pressed 2900, released 3000] init_device) = 2
   \<and> sosActive (run [pressed 3900, released 4000, pressed 4900, released 5000]
        (run [pressed 900, released 1000, pressed 1900, released 2000,
              pressed 2900, released 3000] init_device))"
proof -
  let ?s = "run [pressed 900, released 1000, pressed 1900, released 2000,
                 pressed 2900, released 3000] init_device"
  have idle: "\<not> sosActive ?s"
    by (simp add: click_defs)
  have two: "accepted_count [pressed 3900, released 4000, pressed 4900, released 5000] ?s = 2"
    by (simp add: accepted_count_def click_defs)
  from sos_counter_invariant[of "[pressed 900, released 1000, pressed 1900, released 2000,
      pressed 2900, released 3000]" "[pressed 3900, released 4000, pressed 4900, released 5000]"]
    idle two
  show ?thesis by simp
qed

lemma run_lastButtonState:
  "k \<le> length js \<Longrightarrow>
   lastButtonState (run (take k js) d) =
     (if k = 0 then lastButtonState d else button (js ! (k - 1)))"
proof (cases k)
  case 0
  then show ?thesis by simp
next
  case (Suc k')
  assume "k \<le> length js"
  with Suc have "k' < length js" by simp
  then show ?thesis
    using Suc by (simp add: run_take_Suc loop_lastButtonState)
qed

lemma accepted_is_rising_edge:
  assumes "k < length js" and "accepted js init_device ! k"
  shows "button (js ! k) \<and> 0 < k \<and> \<not> button (js ! (k - 1))"
proof -
  have pressed: "buttonJustPressed (js ! k) (run (take k js) init_device)"
    using assms by (simp add: accepted_nth)
  then have now_high: "button (js ! k)"
    and was_low: "\<not> lastButtonState (run (take k js) init_device)"
    by (simp_all add: buttonJustPressed_def)
  have "lastButtonState (run (take k js) init_device) =
      (if k = 0 then lastButtonState init_device else button (js ! (k - 1)))"
    using assms(1) by (intro run_lastButtonState) simp
  with was_low have "0 < k \<and> \<not> button (js ! (k - 1))"
    by (cases "k = 0") (simp_all add: init_device_def)
  with now_high show ?thesis by simp
qed

text \<open>
  C6. In a run from the initial state whose uptimes do not decrease, of two passes less
  than 200 ms apart at most one has its edge accepted. A pass whose edge is not
  accepted leaves the latch, the counter and the time of the last accepted edge as
  they were and records the button reading as the last one, so that the edge is used
  up. An edge is accepted only in the pass that reads the button released right after
  a pass that read it pressed: nothing of a rejected edge is kept for a later pass.
\<close>

theorem debounce_one_edge_per_window:
  "(sorted (map t_button js) \<and> a < b \<and> b < length js
      \<and> t_button (js ! b) < t_button (js ! a) + 200
     \<longrightarrow> \<not> (accepted js init_device ! a \<and> accepted js init_device ! b))
   \<and> (k < length js \<and> \<not> accepted js init_device ! k
     \<longrightarrow> sosActive (run (take (Suc k) js) init_device) = sosActive (run (take k js) init_device)
       \<and> sosDeactivateCount (run (take (Suc k) js) init_device)
           = sosDeactivateCount (run (take k js) init_device)
       \<and> lastDebounceTime (run (take (Suc k) js) init_device)
           = lastDebounceTime (run (take k js) init_device)
       \<and> lastButtonState (run (take (Suc k) js) init_device) = button (js ! k))
   \<and> (k < length js \<and> accepted js init_device ! k
     \<longrightarrow> button (js ! k) \<and> 0 < k \<and> \<not> button (js ! (k - 1)))"
proof -
  have pair: "\<not> (accepted js init_device ! a \<and> accepted js init_device ! b)"
    if "sorted (map t_button js)" and "a < b" and "b < length js"
      and close: "t_button (js ! b) < t_button (js ! a) + 200"
  proof
    assume both: "accepted js init_device ! a \<and> accepted js init_device ! b"
    have start: "lastDebounceTime init_device = millis 0"
      by (simp add: init_device_def millis_def)
    have "t_button (js ! a) + 200 \<le> t_button (js ! b)"
      using that(1,2,3) both by (intro accepted_pair_gap[OF start]) simp_all
    with close show False by simp
  qed
  have frame: "sosActive (run (take (Suc k) js) init_device) = sosActive (run (take k js) init_device)
       \<and> sosDeactivateCount (run (take (Suc k) js) init_device)
           = sosDeactivateCount (run (take k js) init_device)
       \<and> lastDebounceTime (run (take (Suc k) js) init_device)
           = lastDebounceTime (run (take k js) init_device)
       \<and> lastButtonState (run (take (Suc k) js) init_device) = button (js ! k)"
    if len: "k < length js" and rej: "\<not> accepted js init_device ! k"
  proof -
    have "\<not> buttonJustPressed (js ! k) (run (take k js) init_device)"
      using rej len by (simp add: accepted_nth)
    then show ?thesis
      by (simp add: run_take_Suc[OF len] loop_latch_rejected loop_lastButtonState)
  qed
  have edge: "button (js ! k) \<and> 0 < k \<and> \<not> button (js ! (k - 1))"
    if "k < length js" and "accepted js init_device ! k"
    using that by (rule accepted_is_rising_edge)
  from pair frame edge show ?thesis by blast
qed

theorem debounce_one_edge_per_window_witness:
  "sorted (map t_button [pressed 900, released 1000, pressed 1050, released 1100, released 1250])
   \<and> t_button ([pressed 900, released 1000, pressed 1050, released 1100, released 1250] ! 3)
       < t_button ([pressed 900, released 1000, pressed 1050, released 1100, released 1250] ! 1) + 200
   \<and> accepted [pressed 900, released 1000, pressed 1050, released 1100, released 1250]
        init_device ! 1
   \<and> \<not> accepted [pressed 900, released 1000, pressed 1050, released 1100, released 1250]
        init_device ! 3
   \<and> lastButtonState
        (run (take (Suc 3) [pressed 900, released 1000, pressed 1050, released 1100, released 1250])
           init_device)
   \<and> sosDeactivateCount
        (run (take (Suc 3) [pressed 900, released 1000, pressed 1050, released 1100, released 1250])
           init_device)
       = sosDeactivateCount
        (run (take 3 [pressed 900, released 1000, pressed 1050, released 1100, released 1250])
           init_device)
   \<and> \<not> accepted [pressed 900, released 1000, pressed 1050, released 1100, released 1250]
        init_device ! 4"
proof -
  let ?js = "[pressed 900, released 1000, pressed 1050, released 1100, released 1250]"
  have h1: "sorted (map t_button ?js)"
    by (simp add: pressed_def released_def pass_at_def)
  have h2: "t_button (?js ! 3) < t_button (?js ! 1) + 200"
    by (simp add: pressed_def released_def pass_at_def)
  have h3: "accepted ?js init_device ! 1"
    by (simp add: click_defs)
  have h4: "(1 :: nat) < 3 \<and> 3 < length ?js \<and> 4 < length ?js"
    by simp
  have h5: "button (?js ! 3) \<and> button (?js ! 4)"
    by (simp add: released_def pass_at_def)
  from debounce_one_edge_per_window[of ?js 1 3 3] debounce_one_edge_per_window[of ?js 1 3 4]
    h1 h2 h3 h4 h5
  show ?thesis by simp
qed

section \<open>The warning band\<close>

text \<open>
  C3, as amended. Only the legacy sketch has a warning threshold: there a reading above
  40 and at most 50 degrees C resolves to at least WARNING, whatever the earlier state.
  The latching firmware tests the critical threshold alone: with a reading of at most
  50 degrees C the state is the one the movement section gives, or SOS when the latch
  is active.
\<close>

theorem warning_band_legacy_only:
  "(temperature_in i = Some t \<and> 40 < t \<and> t \<le> 50
     \<longrightarrow> rank WARNING \<le> severity (stateStrings (currentState (legacy_loop i s))))
   \<and> (dht j = Some u \<and> u \<le> 50
     \<longrightarrow> deviceState (loop j d) =
           (if sosActive (loop j d) then ''SOS'' else deviceState (motion j d)))"
proof -
  have legacy: "rank WARNING \<le> severity (stateStrings (currentState (legacy_loop i s)))"
    if "temperature_in i = Some t" and "40 < t" and "t \<le> 50"
    unfolding legacy_loop_def
    by (intro severity_stateStrings legacy_inactivity_raises legacy_temperature_band[OF that])
  have latching: "deviceState (loop j d) =
      (if sosActive (loop j d) then ''SOS'' else deviceState (motion j d))"
    if "dht j = Some u" and "u \<le> 50"
  proof -
    have "\<not> temperature_read j > 50"
      using that by (simp add: temperature_read_def)
    then show ?thesis
      by (simp add: loop_deviceState sensors_def dht_logic_deviceState)
  qed
  from legacy latching show ?thesis by blast
qed

theorem warning_band_legacy_only_witness:
  "currentState (legacy_loop
       \<lparr> temperature_in = Some 45, button_low = False, magnitude = 13,
         t_movement = 1000, t_inactivity = 1000, t_inactivity2 = 1000 \<rparr>
       \<lparr> currentState = NORMAL_st, sosActive_legacy = False, lastMovementTime = 0 \<rparr>)
     = WARNING_st
   \<and> dht (pass_at 1000 True 2 45) = Some 45
   \<and> deviceState (loop (pass_at 1000 True 2 45) init_device)
       = deviceState (motion (pass_at 1000 True 2 45) init_device)"
proof -
  let ?i = "\<lparr> temperature_in = Some 45, button_low = False, magnitude = 13,
         t_movement = 1000, t_inactivity = 1000, t_inactivity2 = 1000 \<rparr>"
  let ?s = "\<lparr> currentState = NORMAL_st, sosActive_legacy = False, lastMovementTime = 0 \<rparr>"
  have st: "currentState (legacy_loop ?i ?s) = WARNING_st"
    by (simp add: legacy_loop_def legacy_inactivity_def legacy_temperature_def
        legacy_movement_def legacy_sos_def movementTimeout_def millis_def Let_def)
  have h1: "temperature_in ?i = Some 45 \<and> (40 :: real) < 45 \<and> (45 :: real) \<le> 50"
    by simp
  have h2: "dht (pass_at 1000 True 2 45) = Some 45 \<and> (45 :: real) \<le> 50"
    by (simp add: pass_at_def)
  have h3: "\<not> sosActive (loop (pass_at 1000 True 2 45) init_device)"
    by (simp add: pass_defs)
  from warning_band_legacy_only[of ?i 45 ?s "pass_at 1000 True 2 45" 45 init_device]
    st h1 h2 h3
  show ?thesis by simp
qed

text \<open>
  In the latching firmware, at 45 degrees C, moving and with the latch inactive, the
  state is NORMAL.
\<close>

theorem warning_band_latching_counterexample:
  "dht (pass_at 1000 True 2 45) = Some 45 \<and> (40 :: real) < 45 \<and> (45 :: real) < 50
   \<and> \<not> sosActive (loop (pass_at 1000 True 2 45) init_device)
   \<and> deviceState (loop (pass_at 1000 True 2 45) init_device) = ''NORMAL''
   \<and> severity (deviceState (loop (pass_at 1000 True 2 45) init_device)) < rank WARNING"
proof -
  have st: "deviceState (loop (pass_at 1000 True 2 45) init_device) = ''NORMAL''"
    by (simp add: pass_defs)
  have "\<not> sosActive (loop (pass_at 1000 True 2 45) init_device)"
    by (simp add: pass_defs)
  then show ?thesis
    unfolding st by (simp add: severity_literals pass_at_def)
qed


section \<open>Liveness overlay\<close>

lemma onValue_fields:
  "useMock (onValue t time (Some r) s) = useMock s"
  "lastHeartbeat (onValue t time (Some r) s) = Some t"
  "data_status (onValue t time (Some r) s) = reported r"
  by (simp_all add: onValue_def pushAnalytics_def data_status_def Let_def)

text \<open>
  The value of \<open>displayStatus\<close> wherever the component is rendered. With the simulation
  off: without a heartbeat, or with one that is 10 s old or older, it is OFFLINE
  whatever the last data say, and less than 10 s after a value event it is the state
  read from that event's status. With the simulation on it is never the overlay.
\<close>

lemma displayStatus_live:
  "(\<not> useMock s \<and> (\<forall>hb. lastHeartbeat s = Some hb \<longrightarrow> 10000 \<le> now - hb)
      \<longrightarrow> displayStatus now s = OFFLINE)
   \<and> (\<not> useMock s \<and> now - t < 10000
      \<longrightarrow> displayStatus now (onValue t time (Some r) s) = reported r)"
proof -
  have offline: "displayStatus now s = OFFLINE"
    if "\<not> useMock s" and "\<forall>hb. lastHeartbeat s = Some hb \<longrightarrow> 10000 \<le> now - hb"
    using that by (cases "lastHeartbeat s") (simp_all add: displayStatus_def isOnline_def)
  have recover: "displayStatus now (onValue t time (Some r) s) = reported r"
    if "\<not> useMock s" and "now - t < 10000"
    using that by (simp add: displayStatus_def isOnline_def onValue_fields)
  from offline recover show ?thesis by blast
qed

lemma displayStatus_simulation:
  "useMock s \<Longrightarrow> displayStatus now s = data_status s"
  by (simp add: displayStatus_def)

lemma reported_literals:
  "reported (r\<lparr>rtdb_status := Some ''NORMAL''\<rparr>) = NORMAL"
  "reported (r\<lparr>rtdb_status := Some ''WARNING''\<rparr>) = WARNING"
  "reported (r\<lparr>rtdb_status := Some ''EMERGENCY''\<rparr>) = EMERGENCY"
  "reported (r\<lparr>rtdb_status := Some ''EMERGENCY (HIGH TEMP)''\<rparr>) = EMERGENCY"
  "reported (r\<lparr>rtdb_status := Some ''SOS''\<rparr>) = SOS"
  by (simp_all add: reported_def mappedStatus_literals)

lemma value_event_card:
  "\<not> useMock (shown_state scr) \<Longrightarrow>
   card (value_event t time (Some r) scr) = reported r"
  by (simp add: value_event_def render_def displayStatus_def isOnline_def onValue_fields)

text \<open>
  C7. With the simulation off, the card shows OFFLINE after mounting, and a value event
  with status WARNING at time 0 puts WARNING on the card at once. No event follows and
  no timer runs, so the component is not rendered again: the card still shows WARNING
  at 20 s, although \<open>displayStatus\<close> evaluated then would be OFFLINE.
\<close>

theorem liveness_overlay_not_rerendered:
  "card (mount 0) = OFFLINE
   \<and> \<not> useMock (shown_state (value_events
        [(0, ''12:00:00'', Some \<lparr> rtdb_status = Some ''WARNING'', rtdb_temperature = Some 30,
                                   rtdb_movement = Some ''MOVING'' \<rparr>)] (mount 0)))
   \<and> card (value_events
        [(0, ''12:00:00'', Some \<lparr> rtdb_status = Some ''WARNING'', rtdb_temperature = Some 30,
                                   rtdb_movement = Some ''MOVING'' \<rparr>)] (mount 0)) = WARNING
   \<and> displayStatus 20000 (shown_state (value_events
        [(0, ''12:00:00'', Some \<lparr> rtdb_status = Some ''WARNING'', rtdb_temperature = Some 30,
                                   rtdb_movement = Some ''MOVING'' \<rparr>)] (mount 0))) = OFFLINE"
proof -
  let ?r = "\<lparr> rtdb_status = Some ''WARNING'', rtdb_temperature = Some 30,
              rtdb_movement = Some ''MOVING'' \<rparr>"
  have mounted: "card (mount 0) = OFFLINE"
    by (simp add: mount_def render_def displayStatus_def isOnline_def init_dashboard_def)
  have live: "\<not> useMock (shown_state (mount 0))"
    by (simp add: mount_def render_def init_dashboard_def)
  have run: "value_events [(0, ''12:00:00'', Some ?r)] (mount 0)
      = value_event 0 ''12:00:00'' (Some ?r) (mount 0)"
    by simp
  have st: "shown_state (value_event 0 ''12:00:00'' (Some ?r) (mount 0))
      = onValue 0 ''12:00:00'' (Some ?r) (shown_state (mount 0))"
    by (simp add: value_event_def render_def)
  have still_live: "\<not> useMock (shown_state (value_event 0 ''12:00:00'' (Some ?r) (mount 0)))"
    using live by (simp add: st onValue_fields)
  have "reported ?r = WARNING"
    by (simp add: reported_def mappedStatus_literals)
  then have shown: "card (value_event 0 ''12:00:00'' (Some ?r) (mount 0)) = WARNING"
    using value_event_card[OF live, of 0 "''12:00:00''" ?r] by simp
  have late: "displayStatus 20000 (shown_state (value_event 0 ''12:00:00'' (Some ?r) (mount 0)))
      = OFFLINE"
    using live by (simp add: st displayStatus_def isOnline_def onValue_fields)
  from mounted still_live shown late show ?thesis
    unfolding run by simp
qed

section \<open>Rolling windows\<close>

lemma slice_last_push: "slice_last 59 xs @ [x] = slice_last 60 (xs @ [x])"
  by (simp add: slice_last_def)

lemma slice_last_absorb: "slice_last n (slice_last n xs @ ys) = slice_last n (xs @ ys)"
proof -
  have "length xs + length ys - (length xs - n + n) + (length xs - n)
      = length xs + length ys - n"
    by arith
  then show ?thesis
    by (simp add: slice_last_def)
qed

lemma slice_last_append_long: "n \<le> length ys \<Longrightarrow> slice_last n (xs @ ys) = slice_last n ys"
  by (simp add: slice_last_def)

lemma pushes_tempHistory:
  "ps \<noteq> [] \<Longrightarrow>
   tempHistory (pushes ps s) = slice_last 60 (tempHistory s @ map temp_entry ps)"
proof (induction ps arbitrary: s)
  case Nil
  then show ?case by simp
next
  case (Cons p ps)
  obtain time temp mv st where p: "p = (time, temp, mv, st)"
    by (cases p) auto
  have h: "tempHistory (pushAnalytics time temp mv st s) = slice_last 60 (tempHistory s @ [temp_entry p])"
    by (simp add: pushAnalytics_def slice_last_push p temp_entry_def)
  show ?case
  proof (cases "ps = []")
    case True
    then show ?thesis using h by (simp add: p)
  next
    case False
    then show ?thesis
      using Cons.IH[OF False, of "pushAnalytics time temp mv st s"]
      by (simp add: p h slice_last_absorb)
  qed
qed

lemma pushes_movementHistory:
  "ps \<noteq> [] \<Longrightarrow>
   movementHistory (pushes ps s) = slice_last 60 (movementHistory s @ map moving_entry ps)"
proof (induction ps arbitrary: s)
  case Nil
  then show ?case by simp
next
  case (Cons p ps)
  obtain time temp mv st where p: "p = (time, temp, mv, st)"
    by (cases p) auto
  have h: "movementHistory (pushAnalytics time temp mv st s)
      = slice_last 60 (movementHistory s @ [moving_entry p])"
    by (simp add: pushAnalytics_def slice_last_push p moving_entry_def)
  show ?case
  proof (cases "ps = []")
    case True
    then show ?thesis using h by (simp add: p)
  next
    case False
    then show ?thesis
      using Cons.IH[OF False, of "pushAnalytics time temp mv st s"]
      by (simp add: p h slice_last_absorb)
  qed
qed

text \<open>
  C8. After more than 60 pushes, from any earlier content, the temperature window and
  the movement window each hold exactly 60 entries: those of the last 60 pushes, in
  the order of arrival.
\<close>

theorem rolling_window_last_sixty:
  assumes "60 < length ps"
  shows "tempHistory (pushes ps s) = map temp_entry (drop (length ps - 60) ps)
       \<and> length (tempHistory (pushes ps s)) = 60
       \<and> movementHistory (pushes ps s) = map moving_entry (drop (length ps - 60) ps)
       \<and> length (movementHistory (pushes ps s)) = 60"
proof -
  have ne: "ps \<noteq> []"
    using assms by auto
  have t: "tempHistory (pushes ps s) = map temp_entry (drop (length ps - 60) ps)"
    using assms by (simp add: pushes_tempHistory[OF ne] slice_last_append_long)
      (simp add: slice_last_def drop_map)
  have m: "movementHistory (pushes ps s) = map moving_entry (drop (length ps - 60) ps)"
    using assms by (simp add: pushes_movementHistory[OF ne] slice_last_append_long)
      (simp add: slice_last_def drop_map)
  show ?thesis
    using assms by (simp add: t m)
qed

theorem rolling_window_last_sixty_witness:
  "60 < length (map (\<lambda>n. (''12:00:00'', real n, MOVING, NORMAL)) [0..<61])
   \<and> tempHistory (pushes (map (\<lambda>n. (''12:00:00'', real n, MOVING, NORMAL)) [0..<61])
        init_dashboard) = map (\<lambda>n. (''12:00:00'', real n)) [1..<61]
   \<and> length (movementHistory (pushes (map (\<lambda>n. (''12:00:00'', real n, MOVING, NORMAL)) [0..<61])
        init_dashboard)) = 60"
proof -
  let ?ps = "map (\<lambda>n. (''12:00:00'', real n, MOVING, NORMAL)) [0..<61]"
  have h: "60 < length ?ps"
    by simp
  have d: "drop (length ?ps - 60) ?ps = map (\<lambda>n. (''12:00:00'', real n, MOVING, NORMAL)) [1..<61]"
    by (simp add: drop_map)
  from rolling_window_last_sixty[OF h, of init_dashboard] h show ?thesis
    unfolding d by (simp add: temp_entry_def comp_def)
qed

section \<open>The POST handler\<close>



end
